theory Spec2Isabelle
  imports Complex_Main "HOL-Library.Char_ord" "HOL-Library.List_Lexorder" "HOL-Library.AList"
    "HOL-Library.Multiset"
begin

section \<open>Python values, exceptions and the learner's configuration\<close>

text \<open>
  The development embeds \<^verbatim>\<open>algorithms/appo/learner.py\<close> (class \<^verbatim>\<open>LearnerWorker\<close>).
  Python's unbounded integers are \<open>int\<close>. Floating-point tensors are idealised as lists of
  rationals (\<open>rat\<close>): every arithmetic step is exact. An exception is a value of
  \<open>error\<close>; a method of the learner that mutates \<^verbatim>\<open>self\<close> takes the learner's state and
  returns the state reached together with either the exception raised or the value returned,
  so that the mutations made before a \<^verbatim>\<open>raise\<close> are kept, as in Python.
\<close>

datatype error =
    AssertionError | ZeroDivisionError | IndexError | RuntimeError
  | TypeError | KeyError | AttributeError | NotADirectoryError | IsADirectoryError
  | FileNotFoundError | ValueError | NonFiniteFloat

text \<open>Python's \<^verbatim>\<open>a // b\<close> and \<^verbatim>\<open>a % b\<close> on integers: floor division, as \<open>div\<close> and
  \<open>mod\<close> on \<open>int\<close>, raising on a zero divisor.\<close>

definition py_floordiv :: "int \<Rightarrow> int \<Rightarrow> error + int" where
  "py_floordiv a b = (if b = 0 then Inl ZeroDivisionError else Inr (a div b))"

definition py_mod :: "int \<Rightarrow> int \<Rightarrow> error + int" where
  "py_mod a b = (if b = 0 then Inl ZeroDivisionError else Inr (a mod b))"



text \<open>The fields of \<^verbatim>\<open>self.cfg\<close> that the embedded methods read.\<close>

record cfg =
  batch_size :: int
  num_batches_per_iteration :: int
  rollout :: int
  recurrence :: int
  max_policy_lag :: int
  num_minibatches_to_accumulate :: int
  keep_checkpoints :: int
  save_milestones_sec :: int
  with_vtrace :: bool
  gamma :: rat
  gae_lambda :: rat
  vtrace_rho :: "rat option"
  vtrace_c :: "rat option"

section \<open>The rollout slab, rollouts and the learner's state\<close>

text \<open>
  A slot of the shared slab is addressed by
  \<^verbatim>\<open>(worker_idx, split_idx, env_idx, agent_idx, traj_buffer_idx)\<close>. A rollout held by the
  learner carries these coordinates and the metadata of the TRAIN message; its tensors
  \<^verbatim>\<open>r['t']\<close> are a view into the slab, so the model reads them from the slab
  (\<open>rollout_tensors\<close>) at the moment the code reads them. Of the tensors of a trajectory the
  model keeps those that the embedded methods compute with.
\<close>

type_synonym coords = "int \<times> int \<times> int \<times> int \<times> int"

record traj =
  policy_version :: "int list"
  rewards :: "rat list"
  dones :: "rat list"
  values_t :: "rat list"

record rollout_t =
  worker_idx :: int
  split_idx :: int
  env_idx :: int
  agent_idx :: int
  traj_buffer_idx :: int
  rollout_length :: int
  rollout_env_steps :: int

definition coords_of :: "rollout_t \<Rightarrow> coords" where
  "coords_of r = (worker_idx r, split_idx r, env_idx r, agent_idx r, traj_buffer_idx r)"

text \<open>The macro-batch buffer that \<^verbatim>\<open>_prepare_train_buffer\<close> returns: the tensors of the
  rollouts concatenated, and, on the GAE path, the advantages (the returns, which
  no statement below is about, are left out).\<close>

record train_buffer =
  b_policy_version :: "int list"
  b_rewards :: "rat list"
  b_dones :: "rat list"
  b_values :: "rat list"
  b_advantages :: "rat list option"

text \<open>
  The history of slab accesses is a ghost field of the state (\<open>slab_log\<close>): each place where
  the code reads a slot's tensors appends \<open>SlabRead\<close>, each call of
  \<^verbatim>\<open>_mark_rollout_buffer_free\<close> appends \<open>SlabFree\<close>, and a producer filling a slot appends
  \<open>SlabWrite\<close>. No embedded method reads the log.
\<close>

datatype slab_event = SlabWrite coords | SlabRead coords | SlabFree coords

text \<open>
  What the main loop does towards the producers is a second ghost field (\<open>loop_events\<close>):
  \<^verbatim>\<open>resume_experience_collection_cv.notify_all()\<close> appends \<open>NotifyAll\<close>, and the two
  throttled log lines of the backpressure code append \<open>LogStop\<close> and \<open>LogResume\<close>.
\<close>

datatype loop_event = LogStop | LogResume | NotifyAll

type_synonym state_dict = "int list"

record learner =
  cfg :: cfg
  policy_id :: int
  rollout_tensors :: "coords \<Rightarrow> traj"
  traj_tensors_available :: "coords \<Rightarrow> int"
  train_step :: int
  env_steps :: int
  num_discarded_rollouts :: int
  experience_buffer_queue :: "(train_buffer \<times> int \<times> int \<times> int) list"
  is_training :: bool
  stop_experience_collection :: "int \<Rightarrow> bool"
  stop_experience_collection_num_msgs :: int
  resume_experience_collection_num_msgs :: int
  last_milestone_time :: rat
  actor_critic :: state_dict
  optimizer :: state_dict
  slab_log :: "slab_event list"
  loop_events :: "loop_event list"

section \<open>Generalised advantage estimation (the non-V-trace path)\<close>

text \<open>
  Modelled from the spec: \<^verbatim>\<open>calculate_gae\<close> of \<^verbatim>\<open>algorithms/utils/algo_utils.py\<close> is
  imported by \<^verbatim>\<open>learner.py\<close> but is not among the sources. The spec calls it Generalized
  Advantage Estimation, "a standard GAE reference implementation": running backwards over
  the steps, \<open>delta = r + gamma * (1 - done) * V_next - V\<close> and
  \<open>A = delta + gamma * lambda * (1 - done) * A_next\<close>.
  \<open>gae_backward\<close> takes the rewards, the dones and the values of one trajectory, the values
  one element longer (the bootstrap value last), and gives the advantages; \<open>calculate_gae\<close>
  is defined on \<open>T\<close> rewards, \<open>T\<close> dones and \<open>T + 1\<close> values.
\<close>

fun gae_backward :: "rat \<Rightarrow> rat \<Rightarrow> rat list \<Rightarrow> rat list \<Rightarrow> rat list \<Rightarrow> rat list" where
  "gae_backward g lam (r # rs) (d # ds) (v # v' # vs) =
     (let advs = gae_backward g lam rs ds (v' # vs);
          last_gae_lambda = (case advs of [] \<Rightarrow> 0 | a # _ \<Rightarrow> a);
          delta = r + g * (1 - d) * v' - v
      in (delta + g * lam * (1 - d) * last_gae_lambda) # advs)"
| "gae_backward g lam _ _ _ = []"

definition calculate_gae :: "rat list \<Rightarrow> rat list \<Rightarrow> rat list \<Rightarrow> rat \<Rightarrow> rat \<Rightarrow> error + rat list" where
  "calculate_gae rs ds vs g lam =
     (if length rs \<noteq> length ds \<or> length rs + 1 \<noteq> length vs then Inl AssertionError
      else Inr (gae_backward g lam rs ds vs))"

text \<open>
  \<^verbatim>\<open>_calculate_gae\<close>. The tensors of the \<open>E\<close> trajectories are stacked and squeezed to
  \<open>[E, T]\<close>; \<^verbatim>\<open>torch.stack\<close> raises on trajectories of different lengths, and when \<open>E = 1\<close>
  or \<open>T \<le> 1\<close> the squeeze drops a dimension (or the row is empty) and the indexing
  \<^verbatim>\<open>values_arr[i][-1]\<close> raises. Each row gets the bootstrap value
  \<^verbatim>\<open>(last_value - last_reward) / gamma\<close> appended; a zero \<open>gamma\<close> gives a non-finite float,
  which the rational model reports as \<open>NonFiniteFloat\<close>. The transpositions between
  \<open>[E, T]\<close> and \<open>[T, E]\<close> only change the layout: GAE is computed row by row
  (\<open>gae_rows\<close>), and the advantages are flattened row-major.
\<close>

definition stack_squeeze :: "rat list list \<Rightarrow> error + rat list list" where
  "stack_squeeze rows =
     (case rows of
        [] \<Rightarrow> Inl AttributeError
      | row # _ \<Rightarrow>
          if \<not> list_all (\<lambda>x. length x = length row) rows then Inl RuntimeError
          else if length rows = 1 \<and> length row = 1 then Inl TypeError
          else if length rows = 1 \<or> length row \<le> 1 then Inl IndexError
          else Inr rows)"

fun gae_rows :: "rat \<Rightarrow> rat \<Rightarrow> (rat list \<times> rat list \<times> rat list) list \<Rightarrow> error + rat list list" where
  "gae_rows g lam [] = Inr []"
| "gae_rows g lam ((rs, ds, vs) # rows) =
     (case calculate_gae rs ds vs g lam of
        Inl e \<Rightarrow> Inl e
      | Inr advs \<Rightarrow> (case gae_rows g lam rows of Inl e \<Rightarrow> Inl e | Inr rest \<Rightarrow> Inr (advs # rest)))"

definition calculate_gae_buffer :: "cfg \<Rightarrow> traj list \<Rightarrow> error + rat list" where
  "calculate_gae_buffer c trajectories =
     (case stack_squeeze (map rewards trajectories) of Inl e \<Rightarrow> Inl e | Inr rewards_arr \<Rightarrow>
      case stack_squeeze (map dones trajectories) of Inl e \<Rightarrow> Inl e | Inr dones_arr \<Rightarrow>
      case stack_squeeze (map values_t trajectories) of Inl e \<Rightarrow> Inl e | Inr values_arr \<Rightarrow>
      if gamma c = 0 then Inl NonFiniteFloat
      else
        let values_ext = map2 (\<lambda>vs rs. vs @ [(last vs - last rs) / gamma c]) values_arr rewards_arr
        in case gae_rows (gamma c) (gae_lambda c) (zip rewards_arr (zip dones_arr values_ext)) of
             Inl e \<Rightarrow> Inl e
           | Inr advantages \<Rightarrow> Inr (concat advantages))"

section \<open>Assembling macro-batches\<close>

text \<open>\<^verbatim>\<open>_mark_rollout_buffer_free\<close>: the availability flag of the rollout's slot is set to 1.\<close>

definition mark_rollout_buffer_free :: "rollout_t \<Rightarrow> learner \<Rightarrow> learner" where
  "mark_rollout_buffer_free r s =
     s\<lparr>traj_tensors_available := (traj_tensors_available s)(coords_of r := 1),
       slab_log := slab_log s @ [SlabFree (coords_of r)]\<rparr>"

text \<open>Reading the tensors of a rollout out of the slab.\<close>

definition read_rollout :: "rollout_t \<Rightarrow> learner \<Rightarrow> traj \<times> learner" where
  "read_rollout r s =
     (rollout_tensors s (coords_of r), s\<lparr>slab_log := slab_log s @ [SlabRead (coords_of r)]\<rparr>)"


text \<open>\<^verbatim>\<open>r['t']['policy_version'].min().item()\<close>; the minimum of an empty tensor raises.\<close>

definition rollout_min_version :: "rollout_t \<Rightarrow> learner \<Rightarrow> (error + int) \<times> learner" where
  "rollout_min_version r s =
     (case read_rollout r s of (t, s1) \<Rightarrow>
      case policy_version t of
        [] \<Rightarrow> (Inl RuntimeError, s1)
      | v # vs \<Rightarrow> (Inr (fold min vs v), s1))"

text \<open>\<^verbatim>\<open>_macro_batch_size\<close>.\<close>

definition macro_batch_size :: "learner \<Rightarrow> int \<Rightarrow> int" where
  "macro_batch_size s bs = num_batches_per_iteration (cfg s) * bs"

text \<open>
  Modelled from the spec: \<^verbatim>\<open>TensorBatcher.cat\<close> (of \<^verbatim>\<open>appo_utils.py\<close>, not among the
  sources) copies the tensor fields of the rollouts, in order, into one buffer taken from
  the pool. \<open>tensor_cat\<close> is that concatenation.
\<close>

definition tensor_cat :: "traj list \<Rightarrow> rat list option \<Rightarrow> train_buffer" where
  "tensor_cat trajectories gae =
     \<lparr>b_policy_version = concat (map policy_version trajectories),
      b_rewards = concat (map rewards trajectories),
      b_dones = concat (map dones trajectories),
      b_values = concat (map values_t trajectories),
      b_advantages = gae\<rparr>"



text \<open>\<^verbatim>\<open>_process_macro_batch\<close>: three assertions, the sample and environment-step counts,
  and the prepared buffer is put on the queue of the training thread.\<close>

definition assert_divides :: "int \<Rightarrow> int \<Rightarrow> error option" where
  "assert_divides a b =
     (case py_mod a b of Inl e \<Rightarrow> Some e
      | Inr m \<Rightarrow> if m = 0 then None else Some AssertionError)"


text \<open>
  The \<^verbatim>\<open>for\<close> loop of \<^verbatim>\<open>_process_rollouts\<close>: from the front of the list, a rollout whose
  minimum policy version lags \<open>pv\<close> by \<^verbatim>\<open>max_policy_lag\<close> or more is counted and its slot
  freed; the loop stops at the first rollout that does not.
\<close>

fun discard_loop :: "int \<Rightarrow> rollout_t list \<Rightarrow> nat \<Rightarrow> learner \<Rightarrow> (error + nat) \<times> learner" where
  "discard_loop pv [] n s = (Inr n, s)"
| "discard_loop pv (r # rs) n s =
     (case rollout_min_version r s of
        (Inl e, s1) \<Rightarrow> (Inl e, s1)
      | (Inr rollout_min_version', s1) \<Rightarrow>
          if pv - rollout_min_version' \<ge> max_policy_lag (cfg s1)
          then discard_loop pv rs (n + 1) (mark_rollout_buffer_free r s1)
          else (Inr n, s1))"


section \<open>Backpressure\<close>




section \<open>Minibatches\<close>

text \<open>\<^verbatim>\<open>np.arange(start, stop, step)\<close> on integers: \<open>ceil((stop - start) / step)\<close> elements,
  none when that is negative; a zero step raises.\<close>

definition py_arange :: "int \<Rightarrow> int \<Rightarrow> int \<Rightarrow> error + int list" where
  "py_arange start stop step =
     (if step = 0 then Inl ZeroDivisionError
      else let n = (if step > 0 then (stop - start + step - 1) div step
                    else (start - stop - step - 1) div (- step))
           in Inr (map (\<lambda>k. start + int k * step) [0..<nat n]))"

text \<open>\<^verbatim>\<open>np.split(indices, n)\<close>: \<open>n\<close> parts of equal length, or an exception when there is no
  such division.\<close>

definition np_split :: "'a list \<Rightarrow> int \<Rightarrow> error + 'a list list" where
  "np_split xs n =
     (if n \<le> 0 \<or> int (length xs) mod n \<noteq> 0 then Inl ValueError
      else let k = length xs div nat n
           in Inr (map (\<lambda>j. take k (drop (j * k) xs)) [0..<nat n]))"

text \<open>
  \<^verbatim>\<open>_get_minibatches\<close>. The random permutation is drawn by the environment: \<open>permutation\<close>
  is what \<^verbatim>\<open>np.random.permutation\<close> returns on the list it is given. The windows
  \<^verbatim>\<open>np.arange(i, i + recurrence)\<close> have step 1. \<^verbatim>\<open>np.concatenate\<close> raises on an empty list
  of arrays. The result \<^verbatim>\<open>[None]\<close> is the list holding \<open>None\<close>.
\<close>

definition get_minibatches ::
  "cfg \<Rightarrow> (int list \<Rightarrow> int list) \<Rightarrow> int \<Rightarrow> int \<Rightarrow> error + int list option list" where
  "get_minibatches c permutation bs experience_size =
     (case assert_divides (rollout c) (recurrence c) of Some e \<Rightarrow> Inl e | None \<Rightarrow>
      case assert_divides experience_size bs of Some e \<Rightarrow> Inl e | None \<Rightarrow>
      if num_batches_per_iteration c = 1 then Inr [None]
      else
        case py_arange 0 experience_size (recurrence c) of Inl e \<Rightarrow> Inl e | Inr starts \<Rightarrow>
        let shuffled = permutation starts;
            windows = map (\<lambda>i. case py_arange i (i + recurrence c) 1 of
                                   Inl _ \<Rightarrow> [] | Inr w \<Rightarrow> w) shuffled
        in if windows = [] then Inl ValueError
           else let indices = concat windows
                in if int (length indices) \<noteq> experience_size then Inl AssertionError
                   else case py_floordiv experience_size bs of Inl e \<Rightarrow> Inl e
                        | Inr num_minibatches \<Rightarrow>
                           (case np_split indices num_minibatches of
                              Inl e \<Rightarrow> Inl e
                            | Inr minibatches \<Rightarrow> Inr (map Some minibatches)))"

section \<open>Checkpoints\<close>

text \<open>
  The checkpoint directory of a policy is an association list from the names of its entries
  to what they are: a regular file, or a subdirectory with the names of the files in it
  (the directory \<^verbatim>\<open>milestones\<close>). Names are unique in a directory. Creating or replacing
  an entry is \<open>AList.update\<close>, removing one is \<open>AList.delete\<close>.
\<close>

datatype entry = RegularFile | Directory "string list"

type_synonym directory = "(string \<times> entry) list"

text \<open>\<^verbatim>\<open>str(n)\<close> and the format \<^verbatim>\<open>{n:09d}\<close> of an integer: the decimal digits, padded with
  zeros to nine characters, the sign included and in front.\<close>

definition digit_char :: "nat \<Rightarrow> char" where
  "digit_char k = char_of (48 + k)"

fun digits_of :: "nat \<Rightarrow> string" where
  "digits_of n = (if n < 10 then [digit_char n] else digits_of (n div 10) @ [digit_char (n mod 10)])"

declare digits_of.simps [simp del]

definition str_int :: "int \<Rightarrow> string" where
  "str_int n = (if n < 0 then CHR ''-'' # digits_of (nat (- n)) else digits_of (nat n))"

definition format_09d :: "int \<Rightarrow> string" where
  "format_09d n =
     (if n < 0
      then CHR ''-'' # replicate (8 - length (digits_of (nat (- n)))) CHR ''0'' @ digits_of (nat (- n))
      else replicate (9 - length (digits_of (nat n))) CHR ''0'' @ digits_of (nat n))"

text \<open>\<^verbatim>\<open>f'checkpoint_{self.train_step:09d}_{self.env_steps}.pth'\<close>.\<close>

definition checkpoint_name :: "int \<Rightarrow> int \<Rightarrow> string" where
  "checkpoint_name ts es = ''checkpoint_'' @ format_09d ts @ ''_'' @ str_int es @ ''.pth''"

text \<open>
  \<^verbatim>\<open>get_checkpoints\<close>: the entries of the directory that match \<^verbatim>\<open>checkpoint_*\<close>, sorted.
  The glob looks at the names in the directory itself, files and subdirectories alike, and
  not inside a subdirectory. All paths start with the path of the directory, so sorting the
  paths is sorting the names; strings are compared character by character.
\<close>

definition matches_checkpoint :: "string \<Rightarrow> bool" where
  "matches_checkpoint name = (take 11 name = ''checkpoint_'')"

definition get_checkpoints :: "directory \<Rightarrow> string list" where
  "get_checkpoints d = sort (filter matches_checkpoint (map fst d))"

definition isfile :: "directory \<Rightarrow> string \<Rightarrow> bool" where
  "isfile d name = (map_of d name = Some RegularFile)"

text \<open>
  The pruning loop of \<^verbatim>\<open>_save\<close>. While more than \<^verbatim>\<open>keep_checkpoints\<close> entries match, the
  first of them is removed if it is a regular file. When it is not, the loop goes round
  with the directory unchanged and never ends: the result is then \<open>None\<close>. With a negative
  \<^verbatim>\<open>keep_checkpoints\<close> and no entry left, \<^verbatim>\<open>get_checkpoints(...)[0]\<close> raises.
\<close>

partial_function (option) prune_checkpoints :: "int \<Rightarrow> directory \<Rightarrow> (error + directory) option" where
  "prune_checkpoints keep d =
     (if int (length (get_checkpoints d)) > keep
      then (case get_checkpoints d of
              [] \<Rightarrow> Some (Inl IndexError)
            | oldest_checkpoint # _ \<Rightarrow>
                if isfile d oldest_checkpoint
                then prune_checkpoints keep (AList.delete oldest_checkpoint d)
                else prune_checkpoints keep d)
      else Some (Inr d))"

text \<open>Writing a regular file under a name: the name must not be that of a directory.\<close>

definition write_file :: "string \<Rightarrow> directory \<Rightarrow> error + directory" where
  "write_file name d =
     (case map_of d name of
        Some (Directory _) \<Rightarrow> Inl IsADirectoryError
      | _ \<Rightarrow> Inr (AList.update name RegularFile d))"

text \<open>
  The milestone part of \<^verbatim>\<open>_save\<close>: the subdirectory \<^verbatim>\<open>milestones\<close> is created when no
  entry has that name, and the checkpoint just written is copied into it under its name
  followed by \<^verbatim>\<open>.milestone\<close>. The copy raises when the checkpoint is no longer there,
  and when \<^verbatim>\<open>milestones\<close> is a regular file.
\<close>

definition copy_milestone :: "string \<Rightarrow> directory \<Rightarrow> error + directory" where
  "copy_milestone checkpoint_name' d =
     (let d1 = (case map_of d ''milestones'' of
                  None \<Rightarrow> AList.update ''milestones'' (Directory []) d
                | Some _ \<Rightarrow> d)
      in if \<not> isfile d1 checkpoint_name' then Inl FileNotFoundError
         else case map_of d1 ''milestones'' of
                Some (Directory ms) \<Rightarrow>
                  Inr (AList.update ''milestones''
                         (Directory (List.insert (checkpoint_name' @ ''.milestone'') ms)) d1)
              | _ \<Rightarrow> Inl NotADirectoryError)"

text \<open>
  \<^verbatim>\<open>_save\<close>, on the checkpoint directory of the learner's own policy. \<open>now\<close> and \<open>now'\<close> are
  the two readings of the clock. The result is \<open>None\<close> when the pruning loop does not end;
  otherwise it tells whether an exception was raised, and gives the directory and the
  learner's state reached. The contents of the files are not modelled.
\<close>

definition save :: "rat \<Rightarrow> rat \<Rightarrow> directory \<Rightarrow> learner \<Rightarrow> ((error + unit) \<times> directory \<times> learner) option" where
  "save now now' d s =
     (let checkpoint_name' = checkpoint_name (train_step s) (env_steps s) in
      case write_file ''.temp_checkpoint'' d of
        Inl e \<Rightarrow> Some (Inl e, d, s)
      | Inr d1 \<Rightarrow>
         (case write_file checkpoint_name' (AList.delete ''.temp_checkpoint'' d1) of
            Inl e \<Rightarrow> Some (Inl e, d1, s)
          | Inr d2 \<Rightarrow>
             (case prune_checkpoints (keep_checkpoints (cfg s)) d2 of
                None \<Rightarrow> None
              | Some (Inl e) \<Rightarrow> Some (Inl e, d2, s)
              | Some (Inr d3) \<Rightarrow>
                  if save_milestones_sec (cfg s) > 0 \<and>
                     now - last_milestone_time s \<ge> of_int (save_milestones_sec (cfg s))
                  then (case copy_milestone checkpoint_name' d3 of
                          Inl e \<Rightarrow> Some (Inl e, d3, s)
                        | Inr d4 \<Rightarrow> Some (Inr (), d4, s\<lparr>last_milestone_time := now'\<rparr>))
                  else Some (Inr (), d3, s))))"

text \<open>
  Loading. What \<^verbatim>\<open>torch.load\<close> gives is decided by the environment: \<open>io k path\<close> is the
  outcome of the \<open>k\<close>-th call of \<^verbatim>\<open>torch.load\<close> when made on \<open>path\<close>, \<open>None\<close> for an
  exception and the checkpoint dictionary otherwise. The number of calls made so far is
  threaded through. A checkpoint dictionary has the four keys that
  \<^verbatim>\<open>_get_checkpoint_dict\<close> writes.
\<close>

record checkpoint_dict =
  ck_train_step :: int
  ck_env_steps :: int
  ck_model :: state_dict
  ck_optimizer :: state_dict

type_synonym torch_load = "nat \<Rightarrow> string \<Rightarrow> checkpoint_dict option"

text \<open>The loop \<^verbatim>\<open>for attempt in range(num_attempts)\<close> of \<^verbatim>\<open>load_checkpoint\<close>.\<close>

fun load_attempts :: "nat \<Rightarrow> torch_load \<Rightarrow> string \<Rightarrow> nat \<Rightarrow> checkpoint_dict option \<times> nat" where
  "load_attempts 0 io path calls = (None, calls)"
| "load_attempts (Suc n) io path calls =
     (case io calls path of
        Some checkpoint_dict' \<Rightarrow> (Some checkpoint_dict', Suc calls)
      | None \<Rightarrow> load_attempts n io path (Suc calls))"

definition load_checkpoint :: "string list \<Rightarrow> torch_load \<Rightarrow> nat \<Rightarrow> checkpoint_dict option \<times> nat" where
  "load_checkpoint checkpoints io calls =
     (if length checkpoints \<le> 0 then (None, calls)
      else load_attempts 3 io (last checkpoints) calls)"

text \<open>\<^verbatim>\<open>_get_checkpoint_dict\<close> and \<^verbatim>\<open>_load_state\<close>.\<close>

definition get_checkpoint_dict :: "learner \<Rightarrow> checkpoint_dict" where
  "get_checkpoint_dict s =
     \<lparr>ck_train_step = train_step s, ck_env_steps = env_steps s,
      ck_model = actor_critic s, ck_optimizer = optimizer s\<rparr>"

definition load_state :: "checkpoint_dict \<Rightarrow> bool \<Rightarrow> learner \<Rightarrow> learner" where
  "load_state checkpoint_dict' load_progress s =
     (let s1 = (if load_progress
                then s\<lparr>train_step := ck_train_step checkpoint_dict',
                       env_steps := ck_env_steps checkpoint_dict'\<rparr>
                else s)
      in s1\<lparr>actor_critic := ck_model checkpoint_dict',
             optimizer := ck_optimizer checkpoint_dict'\<rparr>)"

text \<open>\<^verbatim>\<open>load_from_checkpoint\<close>; \<open>dirs\<close> gives the checkpoint directory of each policy.\<close>

definition load_from_checkpoint ::
  "int \<Rightarrow> (int \<Rightarrow> directory) \<Rightarrow> torch_load \<Rightarrow> nat \<Rightarrow> learner \<Rightarrow> learner \<times> nat" where
  "load_from_checkpoint policy_id' dirs io calls s =
     (let checkpoints = get_checkpoints (dirs policy_id') in
      case load_checkpoint checkpoints io calls of
        (None, calls') \<Rightarrow> (s, calls')
      | (Some checkpoint_dict', calls') \<Rightarrow>
          (load_state checkpoint_dict' (policy_id' = policy_id s) s, calls'))"

section \<open>V-trace (in the training loop)\<close>

text \<open>
  The V-trace block of \<^verbatim>\<open>_train\<close>. A minibatch is a flat tensor of \<open>num_trajectories\<close>
  segments of \<^verbatim>\<open>recurrence\<close> steps each, and the slice \<^verbatim>\<open>x[i::recurrence]\<close> holds step \<open>i\<close> of
  every segment. Every operation of the backward loop is elementwise on such slices, so the
  entries of one segment are computed from that segment alone: \<open>vtrace_steps\<close> is the loop
  on one segment, its steps given first to last as
  \<open>(vtrace_rho, vtrace_c, reward, done, value)\<close>, and gives \<open>(adv, vs)\<close> for each step.
  \<open>boot\<close> is the initial \<^verbatim>\<open>next_values\<close> and \<^verbatim>\<open>next_vs\<close> of the segment.
\<close>

fun vtrace_steps :: "rat \<Rightarrow> rat \<Rightarrow> (rat \<times> rat \<times> rat \<times> rat \<times> rat) list \<Rightarrow> (rat \<times> rat) list" where
  "vtrace_steps g boot [] = []"
| "vtrace_steps g boot ((curr_vtrace_rho, curr_vtrace_c, reward, done, curr_value) # steps) =
     (let rest = vtrace_steps g boot steps;
          next_values = (case steps of [] \<Rightarrow> boot | (_, _, _, _, v) # _ \<Rightarrow> v);
          next_vs = (case rest of [] \<Rightarrow> boot | (_, vs) # _ \<Rightarrow> vs);
          not_done_times_gamma = (1 - done) * g;
          delta_s = curr_vtrace_rho * (reward + not_done_times_gamma * next_values - curr_value);
          adv = curr_vtrace_rho * (reward + not_done_times_gamma * next_vs - curr_value);
          vs = curr_value + delta_s + not_done_times_gamma * curr_vtrace_c * (next_vs - next_values)
      in (adv, vs) # rest)"

text \<open>\<^verbatim>\<open>torch.min(rho_hat, ratios)\<close>; an infinite bound is \<open>None\<close>.\<close>

definition clip_above :: "rat option \<Rightarrow> rat \<Rightarrow> rat" where
  "clip_above bound x = (case bound of None \<Rightarrow> x | Some b \<Rightarrow> min b x)"

definition segments :: "nat \<Rightarrow> 'a list \<Rightarrow> 'a list list" where
  "segments n xs = map (\<lambda>j. take n (drop (j * n) xs)) [0..<length xs div n]"

text \<open>
  The block on a whole minibatch: \<open>ratio\<close>, \<open>values'\<close>, \<open>rewards'\<close> and \<open>dones'\<close> are the
  tensors \<^verbatim>\<open>ratio\<close>, \<^verbatim>\<open>values\<close>, \<^verbatim>\<open>mb.rewards\<close> and \<^verbatim>\<open>mb.dones\<close>. The assertion is the one
  \<^verbatim>\<open>_train\<close> makes when \<^verbatim>\<open>with_vtrace\<close> is set; the tensors hold a whole number of segments
  and have the same length; a zero \<open>gamma\<close> gives a non-finite bootstrap. The result is the
  pair \<^verbatim>\<open>(adv, vs)\<close>.
\<close>

definition vtrace_segment ::
  "cfg \<Rightarrow> (rat list \<times> rat list \<times> rat list \<times> rat list) \<Rightarrow> (rat \<times> rat) list" where
  "vtrace_segment c seg =
     (case seg of (ratio, values', rewards', dones') \<Rightarrow>
        let next_values = (last values' - last rewards') / gamma c
        in vtrace_steps (gamma c) next_values
             (zip (map (clip_above (vtrace_rho c)) ratio)
                (zip (map (clip_above (vtrace_c c)) ratio)
                   (zip rewards' (zip dones' values')))))"

definition train_vtrace ::
  "cfg \<Rightarrow> rat list \<Rightarrow> rat list \<Rightarrow> rat list \<Rightarrow> rat list \<Rightarrow> error + (rat list \<times> rat list)" where
  "train_vtrace c ratio values' rewards' dones' =
     (if \<not> (recurrence c = rollout c \<and> recurrence c > 1) then Inl AssertionError
      else if length values' \<noteq> length ratio \<or> length rewards' \<noteq> length ratio \<or>
              length dones' \<noteq> length ratio \<or>
              int (length ratio) mod recurrence c \<noteq> 0 then Inl AssertionError
      else if gamma c = 0 then Inl NonFiniteFloat
      else
        let n = nat (recurrence c);
            results = map (vtrace_segment c)
                        (zip (segments n ratio)
                           (zip (segments n values')
                              (zip (segments n rewards') (segments n dones'))))
        in Inr (concat (map (map fst) results), concat (map (map snd) results)))"

section \<open>Notions used in the statements about the assembler\<close>

definition min_policy_version :: "learner \<Rightarrow> rollout_t \<Rightarrow> int option" where
  "min_policy_version s r =
     (case policy_version (rollout_tensors s (coords_of r)) of
        [] \<Rightarrow> None | v # vs \<Rightarrow> Some (fold min vs v))"

definition lagging :: "learner \<Rightarrow> int \<Rightarrow> rollout_t \<Rightarrow> bool" where
  "lagging s pv r =
     (case min_policy_version s r of
        None \<Rightarrow> False | Some v \<Rightarrow> pv - v \<ge> max_policy_lag (cfg s))"

definition free_flags :: "rollout_t list \<Rightarrow> (coords \<Rightarrow> int) \<Rightarrow> (coords \<Rightarrow> int)" where
  "free_flags rs f = fold (\<lambda>r g. g(coords_of r := 1)) rs f"

definition discard_events :: "(rollout_t \<Rightarrow> bool) \<Rightarrow> rollout_t list \<Rightarrow> slab_event list" where
  "discard_events L rs =
     concat (map (\<lambda>r. [SlabRead (coords_of r), SlabFree (coords_of r)]) (takeWhile L rs)) @
     (case dropWhile L rs of [] \<Rightarrow> [] | r # _ \<Rightarrow> [SlabRead (coords_of r)])"

definition slot_tensors :: "learner \<Rightarrow> rollout_t list \<Rightarrow> traj list" where
  "slot_tensors s rs = map (\<lambda>r. rollout_tensors s (coords_of r)) rs"



definition gae_of :: "learner \<Rightarrow> rollout_t list \<Rightarrow> error + rat list option" where
  "gae_of s rs =
     (if with_vtrace (cfg s) then Inr None
      else case calculate_gae_buffer (cfg s) (slot_tensors s rs) of
             Inl e \<Rightarrow> Inl e | Inr g \<Rightarrow> Inr (Some g))"

definition macro_batch_asserts :: "learner \<Rightarrow> int \<Rightarrow> error option" where
  "macro_batch_asserts s bs =
     (case assert_divides (macro_batch_size s bs) (rollout (cfg s)) of
        Some e \<Rightarrow> Some e
      | None \<Rightarrow>
         (case assert_divides (rollout (cfg s)) (recurrence (cfg s)) of
            Some e \<Rightarrow> Some e
          | None \<Rightarrow> assert_divides (macro_batch_size s bs) (recurrence (cfg s))))"

definition batch_entry ::
  "learner \<Rightarrow> rollout_t list \<Rightarrow> int \<Rightarrow> rat list option \<Rightarrow> train_buffer \<times> int \<times> int \<times> int" where
  "batch_entry s rs bs gae =
     (tensor_cat (slot_tensors s rs) gae, bs,
      sum_list (map rollout_length rs), sum_list (map rollout_env_steps rs))"


definition stale_prefix :: "learner \<Rightarrow> rollout_t list \<Rightarrow> rollout_t list" where
  "stale_prefix s rs = takeWhile (lagging s (train_step s)) rs"


definition discarded_state :: "learner \<Rightarrow> rollout_t list \<Rightarrow> learner" where
  "discarded_state s rs =
     s\<lparr>traj_tensors_available := free_flags (stale_prefix s rs) (traj_tensors_available s),
       slab_log := slab_log s @ discard_events (lagging s (train_step s)) rs,
       num_discarded_rollouts := num_discarded_rollouts s + int (length (stale_prefix s rs))\<rparr>"



section \<open>Notions used in the statements about backpressure\<close>



definition paused :: "learner \<Rightarrow> bool" where
  "paused s = stop_experience_collection s (policy_id s)"


text \<open>
  A stream of ticks. Between two ticks the rest of the loop and the training thread change
  the pending rollouts, \<^verbatim>\<open>is_training\<close> and the queue: a load is what a tick finds of them,
  and \<open>run_ticks\<close> runs the backpressure code once on each load of the stream.
  \<open>falling_edges\<close> counts, in a list of flags, the places where a set flag is followed by a
  cleared one; \<open>notifications\<close> counts the \<^verbatim>\<open>notify_all\<close> calls made so far.
\<close>

type_synonym load = "rollout_t list \<times> bool \<times> (train_buffer \<times> int \<times> int \<times> int) list"

definition observe :: "load \<Rightarrow> learner \<Rightarrow> learner" where
  "observe l s = s\<lparr>is_training := fst (snd l), experience_buffer_queue := snd (snd l)\<rparr>"





section \<open>Notions used in the statements about minibatches\<close>

text \<open>The window of \<open>R\<close> consecutive indices starting at \<open>i\<close>, and the starts
  \<open>0, R, 2R, ...\<close> of the first \<open>N\<close> aligned windows.\<close>

definition window :: "nat \<Rightarrow> int \<Rightarrow> int list" where
  "window R i = map (\<lambda>k. i + int k) [0..<R]"

definition window_starts :: "nat \<Rightarrow> nat \<Rightarrow> int list" where
  "window_starts R N = map (\<lambda>k. int k * int R) [0..<N]"

section \<open>A small learner used as concrete input\<close>

text \<open>Macro-batches of two rollouts of two steps each; the slot of worker 0 holds
  a trajectory of policy version 10, every other slot one of version 0; the learner is at
  training step 10 and allows a policy lag below 5.\<close>

definition example_cfg :: cfg where
  "example_cfg =
     \<lparr>batch_size = 4, num_batches_per_iteration = 1, rollout = 2, recurrence = 2,
      max_policy_lag = 5, num_minibatches_to_accumulate = - 1, keep_checkpoints = 2,
      save_milestones_sec = 0, with_vtrace = True, gamma = 1 / 2, gae_lambda = 1,
      vtrace_rho = Some 1, vtrace_c = Some 1\<rparr>"


definition example_slab :: "coords \<Rightarrow> traj" where
  "example_slab c =
     \<lparr>policy_version = (if fst c = 0 then [10, 10] else [0, 0]),
      rewards = [1, 1], dones = [0, 0], values_t = [2, 1]\<rparr>"

definition example_learner :: learner where
  "example_learner =
     \<lparr>cfg = example_cfg, policy_id = 0, rollout_tensors = example_slab,
      traj_tensors_available = (\<lambda>c. 0), train_step = 10, env_steps = 0,
      num_discarded_rollouts = 0, experience_buffer_queue = [], is_training = False,
      stop_experience_collection = (\<lambda>p. False), stop_experience_collection_num_msgs = 0,
      resume_experience_collection_num_msgs = 0, last_milestone_time = 0,
      actor_critic = [], optimizer = [], slab_log = [], loop_events = []\<rparr>"

text \<open>A learner with macro-batches of 256 samples and rollouts of 64 steps; the slots of
  the workers below 10 hold trajectories of policy version 10, the others of version 0.\<close>

definition batch256_cfg :: cfg where
  "batch256_cfg =
     \<lparr>batch_size = 128, num_batches_per_iteration = 2, rollout = 64, recurrence = 32,
      max_policy_lag = 5, num_minibatches_to_accumulate = - 1, keep_checkpoints = 2,
      save_milestones_sec = 0, with_vtrace = True, gamma = 1 / 2, gae_lambda = 1,
      vtrace_rho = Some 1, vtrace_c = Some 1\<rparr>"






text \<open>A checkpoint directory with two checkpoints and a milestone, a checkpoint dictionary,
  a \<^verbatim>\<open>torch.load\<close> that always raises and one that succeeds at its third call.\<close>

definition example_dir :: directory where
  "example_dir =
     [(''checkpoint_000000002_20.pth'', RegularFile),
      (''milestones'', Directory [''checkpoint_000000001_10.pth.milestone'']),
      (''checkpoint_000000001_10.pth'', RegularFile)]"

definition example_checkpoint :: checkpoint_dict where
  "example_checkpoint =
     \<lparr>ck_train_step = 2, ck_env_steps = 20, ck_model = [1, 2, 3], ck_optimizer = [4, 5]\<rparr>"


definition flaky_io :: torch_load where
  "flaky_io k path =
     (if k = 2 \<and> path = ''checkpoint_000000002_20.pth'' then Some example_checkpoint else None)"

section \<open>Properties of the assembler\<close>

lemma mark_free_frame [simp]:
  "cfg (mark_rollout_buffer_free r s) = cfg s"
  "rollout_tensors (mark_rollout_buffer_free r s) = rollout_tensors s"
  "train_step (mark_rollout_buffer_free r s) = train_step s"
  "experience_buffer_queue (mark_rollout_buffer_free r s) = experience_buffer_queue s"
  "num_discarded_rollouts (mark_rollout_buffer_free r s) = num_discarded_rollouts s"
  by (simp_all add: mark_rollout_buffer_free_def)

lemma read_rollout_frame [simp]:
  "cfg (snd (read_rollout r s)) = cfg s"
  "rollout_tensors (snd (read_rollout r s)) = rollout_tensors s"
  "train_step (snd (read_rollout r s)) = train_step s"
  "experience_buffer_queue (snd (read_rollout r s)) = experience_buffer_queue s"
  "num_discarded_rollouts (snd (read_rollout r s)) = num_discarded_rollouts s"
  "traj_tensors_available (snd (read_rollout r s)) = traj_tensors_available s"
  "fst (read_rollout r s) = rollout_tensors s (coords_of r)"
  by (simp_all add: read_rollout_def)

lemma rollout_min_version_frame [simp]:
  "cfg (snd (rollout_min_version r s)) = cfg s"
  "rollout_tensors (snd (rollout_min_version r s)) = rollout_tensors s"
  "train_step (snd (rollout_min_version r s)) = train_step s"
  "experience_buffer_queue (snd (rollout_min_version r s)) = experience_buffer_queue s"
  "num_discarded_rollouts (snd (rollout_min_version r s)) = num_discarded_rollouts s"
  "traj_tensors_available (snd (rollout_min_version r s)) = traj_tensors_available s"
  by (simp_all add: rollout_min_version_def read_rollout_def split: list.splits)

lemma rollout_min_version_fst:
  "fst (rollout_min_version r s) =
     (case min_policy_version s r of None \<Rightarrow> Inl RuntimeError | Some v \<Rightarrow> Inr v)"
  by (simp add: rollout_min_version_def read_rollout_def min_policy_version_def split: list.splits)

lemma min_policy_version_cong:
  "rollout_tensors s' = rollout_tensors s \<Longrightarrow> min_policy_version s' r = min_policy_version s r"
  by (simp add: min_policy_version_def)

lemma lagging_cong:
  "rollout_tensors s' = rollout_tensors s \<Longrightarrow> cfg s' = cfg s \<Longrightarrow> lagging s' pv r = lagging s pv r"
  by (simp add: lagging_def min_policy_version_def split: option.splits list.splits)

lemma discard_loop_frame_all:
  "cfg (snd (discard_loop pv rs n s)) = cfg s \<and>
   rollout_tensors (snd (discard_loop pv rs n s)) = rollout_tensors s \<and>
   train_step (snd (discard_loop pv rs n s)) = train_step s \<and>
   experience_buffer_queue (snd (discard_loop pv rs n s)) = experience_buffer_queue s \<and>
   num_discarded_rollouts (snd (discard_loop pv rs n s)) = num_discarded_rollouts s"
proof (induction rs arbitrary: n s)
  case Nil
  show ?case by simp
next
  case (Cons r rs)
  obtain res s1 where rm: "rollout_min_version r s = (res, s1)" by (cases "rollout_min_version r s")
  have fr: "cfg s1 = cfg s" "rollout_tensors s1 = rollout_tensors s" "train_step s1 = train_step s"
     "experience_buffer_queue s1 = experience_buffer_queue s"
     "num_discarded_rollouts s1 = num_discarded_rollouts s"
    using rollout_min_version_frame[of r s] rm by simp_all
  show ?case
  proof (cases res)
    case (Inl e)
    then show ?thesis using rm fr by simp
  next
    case (Inr v)
    show ?thesis
    proof (cases "pv - v \<ge> max_policy_lag (cfg s1)")
      case True
      then show ?thesis
        using rm Inr fr Cons.IH[of "n + 1" "mark_rollout_buffer_free r s1"] by simp
    next
      case False
      then show ?thesis using rm Inr fr by simp
    qed
  qed
qed

lemmas discard_loop_frame [simp] =
  discard_loop_frame_all[THEN conjunct1]
  discard_loop_frame_all[THEN conjunct2, THEN conjunct1]
  discard_loop_frame_all[THEN conjunct2, THEN conjunct2, THEN conjunct1]
  discard_loop_frame_all[THEN conjunct2, THEN conjunct2, THEN conjunct2, THEN conjunct1]
  discard_loop_frame_all[THEN conjunct2, THEN conjunct2, THEN conjunct2, THEN conjunct2]




lemma lagging_after_free [simp]:
  "lagging (mark_rollout_buffer_free r (snd (read_rollout r s))) pv = lagging s pv"
  by (rule ext, rule lagging_cong) simp_all

lemma min_policy_version_after_free [simp]:
  "min_policy_version (mark_rollout_buffer_free r (snd (read_rollout r s))) = min_policy_version s"
  by (rule ext, rule min_policy_version_cong) simp


lemma free_flags_simps [simp]:
  "free_flags [] f = f"
  "free_flags (r # rs) f = free_flags rs (f(coords_of r := 1))"
  by (simp_all add: free_flags_def)

lemma discard_events_simps [simp]:
  "discard_events L [] = []"
  "L r \<Longrightarrow> discard_events L (r # rs) = SlabRead (coords_of r) # SlabFree (coords_of r) # discard_events L rs"
  "\<not> L r \<Longrightarrow> discard_events L (r # rs) = [SlabRead (coords_of r)]"
  by (simp_all add: discard_events_def)















lemma gae_of_discarded [simp]: "gae_of (discarded_state s rs) = gae_of s"
  by (rule ext) (simp add: gae_of_def discarded_state_def slot_tensors_def)

lemma batch_entry_discarded [simp]: "batch_entry (discarded_state s rs) = batch_entry s"
  by (rule ext)+ (simp add: batch_entry_def discarded_state_def slot_tensors_def)







section \<open>Macro-batches of four rollouts\<close>










lemma macro_batch_asserts_discarded [simp]:
  "macro_batch_asserts (discarded_state s rs) bs = macro_batch_asserts s bs"
  by (simp add: macro_batch_asserts_def macro_batch_size_def discarded_state_def
      cong: option.case_cong)

lemma queue_discarded [simp]:
  "experience_buffer_queue (discarded_state s rs) = experience_buffer_queue s"
  by (simp add: discarded_state_def)














section \<open>Properties of the backpressure code\<close>







lemma observe_cfg [simp]: "cfg (observe l s) = cfg s" "policy_id (observe l s) = policy_id s"
  "paused (observe l s) = paused s" "loop_events (observe l s) = loop_events s"
  "stop_experience_collection_num_msgs (observe l s) = stop_experience_collection_num_msgs s"
  "resume_experience_collection_num_msgs (observe l s) = resume_experience_collection_num_msgs s"
  by (simp_all add: observe_def paused_def)













section \<open>Properties of checkpoint loading\<close>

lemma example_get_checkpoints:
  "get_checkpoints example_dir = [''checkpoint_000000001_10.pth'', ''checkpoint_000000002_20.pth'']"
  by (simp add: get_checkpoints_def example_dir_def matches_checkpoint_def)





text \<open>
  Claim C8. When \<^verbatim>\<open>load_from_checkpoint(policy_id)\<close> gets a checkpoint dictionary, the model
  and the optimizer state are those of the checkpoint; the training step and the environment
  steps are those of the checkpoint when \<open>policy_id\<close> is the learner's own policy, and are
  left as they were when it is another policy.
\<close>

theorem load_from_checkpoint_progress:
  assumes "fst (load_checkpoint (get_checkpoints (dirs policy_id')) io calls) = Some ck"
  shows "actor_critic (fst (load_from_checkpoint policy_id' dirs io calls s)) = ck_model ck \<and>
     optimizer (fst (load_from_checkpoint policy_id' dirs io calls s)) = ck_optimizer ck \<and>
     (if policy_id' = policy_id s
      then train_step (fst (load_from_checkpoint policy_id' dirs io calls s)) = ck_train_step ck \<and>
           env_steps (fst (load_from_checkpoint policy_id' dirs io calls s)) = ck_env_steps ck
      else train_step (fst (load_from_checkpoint policy_id' dirs io calls s)) = train_step s \<and>
           env_steps (fst (load_from_checkpoint policy_id' dirs io calls s)) = env_steps s)"
proof -
  obtain calls' where
    "load_checkpoint (get_checkpoints (dirs policy_id')) io calls = (Some ck, calls')"
    using assms by (cases "load_checkpoint (get_checkpoints (dirs policy_id')) io calls") simp
  then show ?thesis
    by (cases "policy_id' = policy_id s") (simp_all add: load_from_checkpoint_def load_state_def Let_def)
qed

theorem load_from_checkpoint_progress_witness:
  "fst (load_checkpoint (get_checkpoints ((\<lambda>p. example_dir) 7)) flaky_io 0) = Some example_checkpoint \<and>
   policy_id example_learner = 0 \<and>
   actor_critic (fst (load_from_checkpoint 7 (\<lambda>p. example_dir) flaky_io 0 example_learner)) = [1, 2, 3] \<and>
   train_step (fst (load_from_checkpoint 7 (\<lambda>p. example_dir) flaky_io 0 example_learner)) = 10 \<and>
   train_step (fst (load_from_checkpoint 0 (\<lambda>p. example_dir) flaky_io 0 example_learner)) = 2"
proof -
  have l: "fst (load_checkpoint (get_checkpoints example_dir) flaky_io 0) = Some example_checkpoint"
    by (simp add: example_get_checkpoints load_checkpoint_def flaky_io_def numeral_3_eq_3)
  have p: "policy_id example_learner = 0" "train_step example_learner = 10"
    by (simp_all add: example_learner_def)
  show ?thesis
    using load_from_checkpoint_progress[where dirs = "\<lambda>p. example_dir" and policy_id' = 7
          and io = flaky_io and calls = 0 and ck = example_checkpoint and s = example_learner]
      load_from_checkpoint_progress[where dirs = "\<lambda>p. example_dir" and policy_id' = 0
          and io = flaky_io and calls = 0 and ck = example_checkpoint and s = example_learner]
      l p
    by (simp add: example_checkpoint_def)
qed



section \<open>Properties of the minibatch partition\<close>

lemma py_arange_window: "py_arange i (i + int R) 1 = Inr (window R i)"
  by (simp add: py_arange_def window_def)

lemma py_arange_starts:
  assumes "0 < R"
  shows "py_arange 0 (int (N * R)) (int R) = Inr (window_starts R N)"
proof -
  have "(int (N * R) + int R - 1) div int R = int N"
  proof -
    have e: "(int (N * R) + int R - 1) = int N * int R + (int R - 1)" by simp
    have "(int N * int R + (int R - 1)) div int R = int N"
      using assms by (simp add: div_pos_pos_trivial)
    then show ?thesis unfolding e .
  qed
  then show ?thesis using assms by (simp add: py_arange_def window_starts_def)
qed

lemma length_concat_const:
  "\<forall>xs\<in>set xss. length xs = k \<Longrightarrow> length (concat xss) = length xss * k"
  by (induction xss) simp_all

lemma take_concat_const:
  "\<forall>xs\<in>set xss. length xs = k \<Longrightarrow> take (n * k) (concat xss) = concat (take n xss)"
proof (induction xss arbitrary: n)
  case Nil
  show ?case by simp
next
  case (Cons xs xss)
  show ?case
  proof (cases n)
    case 0
    then show ?thesis by simp
  next
    case (Suc m)
    have "take (Suc m * k) (xs @ concat xss) = xs @ take (m * k) (concat xss)"
      using Cons.prems by simp
    then show ?thesis using Cons Suc by simp
  qed
qed

lemma drop_concat_const:
  "\<forall>xs\<in>set xss. length xs = k \<Longrightarrow> drop (n * k) (concat xss) = concat (drop n xss)"
proof (induction xss arbitrary: n)
  case Nil
  show ?case by simp
next
  case (Cons xs xss)
  show ?case
  proof (cases n)
    case 0
    then show ?thesis by simp
  next
    case (Suc m)
    have "drop (Suc m * k) (xs @ concat xss) = drop (m * k) (concat xss)"
      using Cons.prems by simp
    then show ?thesis using Cons Suc by simp
  qed
qed

lemma np_split_concat:
  assumes "\<forall>xs\<in>set xss. length xs = k" and "length xss = K * M" and "0 < K"
  shows "np_split (concat xss) (int K) =
     Inr (map (\<lambda>j. concat (take M (drop (j * M) xss))) [0..<K])"
proof -
  have len: "length (concat xss) = K * M * k" using length_concat_const[OF assms(1)] assms(2) by simp
  have d: "length (concat xss) div K = M * k" using len assms(3) by (simp add: mult.assoc)
  have m: "int (length (concat xss)) mod int K = 0"
    using len by (simp add: mult.assoc flip: of_nat_mult)
  have ch: "take (M * k) (drop (j * (M * k)) (concat xss)) = concat (take M (drop (j * M) xss))" for j
  proof -
    have "drop (j * (M * k)) (concat xss) = concat (drop (j * M) xss)"
      using drop_concat_const[OF assms(1), of "j * M"] by (simp add: mult.assoc)
    moreover have "\<forall>xs\<in>set (drop (j * M) xss). length xs = k"
      using assms(1) by (meson in_set_dropD)
    ultimately show ?thesis using take_concat_const[of "drop (j * M) xss" k M] by simp
  qed
  show ?thesis using assms(3) m by (simp add: np_split_def d ch Let_def)
qed

lemma set_window: "set (window R i) = {i..<i + int R}"
proof -
  have "x \<in> (\<lambda>k. i + int k) ` {0..<R}" if "i \<le> x" "x < i + int R" for x
  proof -
    have "x = i + int (nat (x - i))" "nat (x - i) \<in> {0..<R}" using that by auto
    then show ?thesis by blast
  qed
  then show ?thesis by (auto simp: window_def)
qed

lemma length_window [simp]: "length (window R i) = R"
  by (simp add: window_def)

lemma set_window_starts: "set (window_starts R N) = (\<lambda>k. int k * int R) ` {0..<N}"
  by (simp add: window_starts_def)

lemma distinct_window_starts: "0 < R \<Longrightarrow> distinct (window_starts R N)"
  by (simp add: window_starts_def distinct_map inj_on_def)

lemma window_div:
  assumes "0 < R" and "x \<in> set (window R (int k * int R))"
  shows "x div int R = int k"
proof -
  have "int k * int R \<le> x" "x < int k * int R + int R" using assms(2) by (simp_all add: set_window)
  then obtain r where r: "x = int k * int R + r" "0 \<le> r" "r < int R"
    by (metis add.commute diff_ge_0_iff_ge diff_less_eq diff_add_cancel)
  then show ?thesis using assms(1) by (simp add: div_pos_pos_trivial)
qed

lemma windows_cover:
  assumes "0 < R"
  shows "(\<Union>w\<in>set (window_starts R N). set (window R w)) = {0..<int (N * R)}"
proof (intro set_eqI iffI)
  fix x assume "x \<in> (\<Union>w\<in>set (window_starts R N). set (window R w))"
  then obtain k where k: "k < N" "int k * int R \<le> x" "x < int k * int R + int R"
    by (auto simp: set_window_starts set_window)
  have "int k * int R + int R \<le> int N * int R"
  proof -
    have "int (Suc k) * int R \<le> int N * int R"
      using k(1) by (intro mult_right_mono) simp_all
    then show ?thesis by (simp add: algebra_simps)
  qed
  moreover have "0 \<le> x"
  proof -
    have "0 \<le> int k * int R" by simp
    then show ?thesis using k(2) by (rule order_trans)
  qed
  ultimately show "x \<in> {0..<int (N * R)}" using k by simp
next
  fix x assume x: "x \<in> {0..<int (N * R)}"
  define n where "n = nat x"
  have xn1: "x = int n" using x by (simp add: n_def)
  have "int n < int (N * R)" using x unfolding xn1 by simp
  then have xn2: "n < N * R" by (simp only: of_nat_less_iff)
  note xn = xn1 xn2
  let ?k = "n div R"
  have kN: "?k < N" using xn(2) by (rule less_mult_imp_div_less)
  have lo: "?k * R \<le> n" by simp
  have hi: "n < R + ?k * R" using assms by (rule dividend_less_div_times)
  have "int ?k * int R \<le> x" using lo unfolding xn(1) by (simp flip: of_nat_mult)
  moreover have "x < int ?k * int R + int R"
    using hi unfolding xn(1) by (simp flip: of_nat_mult of_nat_add add: add.commute)
  ultimately have "x \<in> set (window R (int ?k * int R))" by (simp add: set_window)
  then show "x \<in> (\<Union>w\<in>set (window_starts R N). set (window R w))"
    using kN by (auto simp: set_window_starts)
qed

lemma get_minibatches_windows:
  assumes R: "0 < R" and M: "0 < M" and K: "0 < K"
    and rec: "recurrence c = int R" and ro: "rollout c mod int R = 0"
    and nb: "num_batches_per_iteration c \<noteq> 1"
    and perm: "mset (permutation (window_starts R (K * M))) = mset (window_starts R (K * M))"
  shows "get_minibatches c permutation (int (M * R)) (int (K * M * R)) =
     Inr (map (\<lambda>j. Some (concat (map (window R)
            (take M (drop (j * M) (permutation (window_starts R (K * M)))))))) [0..<K])"
proof -
  let ?p = "permutation (window_starts R (K * M))"
  have a1: "assert_divides (rollout c) (recurrence c) = None"
    using R ro rec by (simp add: assert_divides_def py_mod_def)
  have "int (K * M * R) mod int (M * R) = 0"
    by (simp add: mult.assoc flip: of_nat_mult)
  then have a2: "assert_divides (int (K * M * R)) (int (M * R)) = None"
    using R M by (simp add: assert_divides_def py_mod_def)
  have ar: "py_arange 0 (int (K * M * R)) (recurrence c) = Inr (window_starts R (K * M))"
    unfolding rec by (rule py_arange_starts[OF R])
  have lp: "length ?p = K * M"
    using mset_eq_length[OF perm] by (simp add: window_starts_def)
  have w: "(\<lambda>i. case py_arange i (i + recurrence c) 1 of Inl _ \<Rightarrow> [] | Inr w \<Rightarrow> w) = window R"
    unfolding rec by (rule ext) (simp add: py_arange_window)
  have ne: "map (window R) ?p \<noteq> []" using lp K M by auto
  have all: "\<forall>xs\<in>set (map (window R) ?p). length xs = R" by simp
  have len: "int (length (concat (map (window R) ?p))) = int (K * M * R)"
    using length_concat_const[OF all] lp by simp
  have fd: "py_floordiv (int (K * M * R)) (int (M * R)) = Inr (int K)"
  proof -
    have "K * M * R div (M * R) = K" using R M by (simp add: mult.assoc)
    then have "int (K * M * R div (M * R)) = int K" by simp
    then have "int (K * M * R) div int (M * R) = int K" by (simp only: zdiv_int)
    then show ?thesis using R M by (simp add: py_floordiv_def)
  qed
  have sp: "np_split (concat (map (window R) ?p)) (int K) =
      Inr (map (\<lambda>j. concat (take M (drop (j * M) (map (window R) ?p)))) [0..<K])"
    by (rule np_split_concat[OF all _ K]) (simp add: lp)
  show ?thesis
    unfolding get_minibatches_def a1 a2 ar Let_def w
    using nb ne len fd sp by (simp add: take_map drop_map o_def w del: of_nat_mult)
qed

lemma window_upto: "window R i = [i..i + int R - 1]"
proof (induction R)
  case 0
  show ?case by (simp add: window_def)
next
  case (Suc R)
  have "[i..i + int (Suc R) - 1] = [i..i + int R - 1] @ [i + int R]"
    using upto_rec2[of i "i + int R"] by (simp add: algebra_simps)
  then show ?case using Suc by (simp add: window_def)
qed

lemma windows_disjoint:
  assumes "0 < R" and "a \<in> set (window_starts R N)" and "b \<in> set (window_starts R N)"
    and "x \<in> set (window R a)" and "x \<in> set (window R b)"
  shows "a = b"
proof -
  obtain ka kb where k: "a = int ka * int R" "b = int kb * int R"
    using assms(2,3) by (auto simp: set_window_starts)
  have "x div int R = int ka" "x div int R = int kb"
    using window_div[OF assms(1)] assms(4,5) unfolding k by blast+
  then show ?thesis unfolding k by simp
qed

lemma minibatches_partition:
  assumes R: "0 < R"
    and perm: "mset p = mset (window_starts R N)"
  shows "set (concat (map (window R) (take n p))) \<union> set (concat (map (window R) (drop n p))) =
           {0..<int (N * R)}"
    and "set (concat (map (window R) (take n p))) \<inter> set (concat (map (window R) (drop n p))) = {}"
    and "distinct p"
    and "\<forall>w\<in>set p. 0 \<le> w \<and> w < int (N * R) \<and> w mod int R = 0"
proof -
  have sp: "set p = set (window_starts R N)" using perm by (rule mset_eq_setD)
  have dp: "distinct p"
    using distinct_window_starts[OF R, of N] perm by (metis mset_eq_imp_distinct_iff)
  show "distinct p" by (rule dp)
  have "set (concat (map (window R) (take n p))) \<union> set (concat (map (window R) (drop n p))) =
      (\<Union>w\<in>set (take n p @ drop n p). set (window R w))"
    by (simp only: set_concat set_map set_append) blast
  also have "\<dots> = (\<Union>w\<in>set (window_starts R N). set (window R w))" by (simp add: sp)
  also have "\<dots> = {0..<int (N * R)}" by (rule windows_cover[OF R])
  finally show "set (concat (map (window R) (take n p))) \<union>
      set (concat (map (window R) (drop n p))) = {0..<int (N * R)}" .
  have dj: "set (take n p) \<inter> set (drop n p) = {}"
    using dp by (metis append_take_drop_id distinct_append)
  show "set (concat (map (window R) (take n p))) \<inter> set (concat (map (window R) (drop n p))) = {}"
  proof (rule ccontr)
    assume "\<not> ?thesis"
    then obtain x a b where x: "a \<in> set (take n p)" "x \<in> set (window R a)"
        "b \<in> set (drop n p)" "x \<in> set (window R b)"
      by auto
    have "a \<in> set (window_starts R N)" "b \<in> set (window_starts R N)"
      using x(1,3) sp by (auto dest: in_set_takeD in_set_dropD)
    from windows_disjoint[OF R this x(2,4)] have "a = b" .
    with x(1,3) dj show False by auto
  qed
  show "\<forall>w\<in>set p. 0 \<le> w \<and> w < int (N * R) \<and> w mod int R = 0"
  proof
    fix w assume "w \<in> set p"
    then obtain k where k: "k < N" "w = int k * int R" using sp by (auto simp: set_window_starts)
    have "w < int (N * R)" using R k by simp
    then show "0 \<le> w \<and> w < int (N * R) \<and> w mod int R = 0" using k(2) by simp
  qed
qed

text \<open>
  Claim C4. With \<^verbatim>\<open>recurrence = 32\<close>, a batch size of 1024 and an experience size of 2048
  (a configuration with more than one batch per iteration, whose rollout length the
  recurrence divides), whatever permutation of the 64 window starts is drawn,
  \<^verbatim>\<open>_get_minibatches\<close> returns exactly 2 minibatches of 1024 indices each. The first is the
  concatenation of the windows of the first 32 shuffled starts and the second that of the
  other 32, so no window is split; every start is a multiple of 32 below 2048 and its window
  is \<open>[w, ..., w + 31]\<close> in increasing order; the two minibatches are disjoint and their
  union is \<open>{0, ..., 2047}\<close>.
\<close>

theorem get_minibatches_whole_windows:
  assumes "recurrence c = 32" and "rollout c mod 32 = 0"
    and "num_batches_per_iteration c \<noteq> 1"
    and "mset (permutation (window_starts 32 64)) = mset (window_starts 32 64)"
  shows "get_minibatches c permutation 1024 2048 =
       Inr [Some (concat (map (window 32) (take 32 (permutation (window_starts 32 64))))),
            Some (concat (map (window 32) (drop 32 (permutation (window_starts 32 64)))))] \<and>
     length (concat (map (window 32) (take 32 (permutation (window_starts 32 64))))) = 1024 \<and>
     length (concat (map (window 32) (drop 32 (permutation (window_starts 32 64))))) = 1024 \<and>
     set (concat (map (window 32) (take 32 (permutation (window_starts 32 64))))) \<union>
       set (concat (map (window 32) (drop 32 (permutation (window_starts 32 64))))) = {0..<2048} \<and>
     set (concat (map (window 32) (take 32 (permutation (window_starts 32 64))))) \<inter>
       set (concat (map (window 32) (drop 32 (permutation (window_starts 32 64))))) = {} \<and>
     distinct (permutation (window_starts 32 64)) \<and>
     (\<forall>w\<in>set (permutation (window_starts 32 64)).
        0 \<le> w \<and> w < 2048 \<and> w mod 32 = 0 \<and> window 32 w = [w..w + 31])"
proof -
  let ?p = "permutation (window_starts 32 64)"
  have perm: "mset (permutation (window_starts 32 (2 * 32))) = mset (window_starts 32 (2 * 32))"
    using assms(4) by simp
  have g: "get_minibatches c permutation (int (32 * 32)) (int (2 * 32 * 32)) =
     Inr (map (\<lambda>j. Some (concat (map (window 32)
            (take 32 (drop (j * 32) (permutation (window_starts 32 (2 * 32)))))))) [0..<2])"
    by (rule get_minibatches_windows[where R = 32 and M = 32 and K = 2 and c = c
          and permutation = permutation])
       (simp_all add: assms)
  have u: "[0..<2] = [0, Suc 0]" by (simp add: upt_rec)
  have lp: "length ?p = 64" using mset_eq_length[OF assms(4)] by (simp add: window_starts_def)
  have 1: "get_minibatches c permutation 1024 2048 =
       Inr [Some (concat (map (window 32) (take 32 ?p))), Some (concat (map (window 32) (drop 32 ?p)))]"
    using g lp unfolding u by simp
  have 2: "length (concat (map (window 32) (take 32 ?p))) = 1024"
    using length_concat_const[of "map (window 32) (take 32 ?p)" 32] lp by simp
  have 3: "length (concat (map (window 32) (drop 32 ?p))) = 1024"
    using length_concat_const[of "map (window 32) (drop 32 ?p)" 32] lp by simp
  have R32: "0 < (32::nat)" by simp
  note part = minibatches_partition[OF R32 assms(4)]
  have 4: "set (concat (map (window 32) (take 32 ?p))) \<union>
       set (concat (map (window 32) (drop 32 ?p))) = {0..<2048}"
    using part(1)[of 32] by simp
  have 5: "set (concat (map (window 32) (take 32 ?p))) \<inter>
       set (concat (map (window 32) (drop 32 ?p))) = {}"
    using part(2)[of 32] by simp
  have 6: "distinct ?p" using part(3) by simp
  have 7: "\<forall>w\<in>set ?p. 0 \<le> w \<and> w < 2048 \<and> w mod 32 = 0 \<and> window 32 w = [w..w + 31]"
  proof -
    have "window 32 w = [w..w + 31]" for w using window_upto[of 32 w] by (simp add: add.commute)
    then show ?thesis using part(4) by simp
  qed
  show ?thesis using 1 2 3 4 5 6 7 by blast
qed

theorem get_minibatches_whole_windows_witness:
  "recurrence batch256_cfg = 32 \<and> rollout batch256_cfg mod 32 = 0 \<and>
   num_batches_per_iteration batch256_cfg \<noteq> 1 \<and>
   mset (rev (window_starts 32 64)) = mset (window_starts 32 64) \<and>
   get_minibatches batch256_cfg rev 1024 2048 =
       Inr [Some (concat (map (window 32) (take 32 (rev (window_starts 32 64))))),
            Some (concat (map (window 32) (drop 32 (rev (window_starts 32 64)))))] \<and>
   take 2 (rev (window_starts 32 64)) = [2016, 1984]"
proof -
  have h: "recurrence batch256_cfg = 32" "rollout batch256_cfg mod 32 = 0"
    "num_batches_per_iteration batch256_cfg \<noteq> 1"
    by (simp_all add: batch256_cfg_def)
  have m: "mset (rev (window_starts 32 64)) = mset (window_starts 32 64)" by simp
  have t: "take 2 (rev (window_starts 32 64)) = [2016, 1984]"
    by code_simp
  show ?thesis
    using get_minibatches_whole_windows[where c = batch256_cfg and permutation = rev] h m t
    by simp
qed

end
